theory Spec2Isabelle
  imports Main "HOL-Library.Sublist" "HOL-Library.AList"
begin

section \<open>Strings and the accelerator translator\<close>

text \<open>
  A JavaScript string is a sequence of UTF-16 code units. The model uses \<open>string\<close> and
  reads each \<open>char\<close> as one code unit below 256, which covers every token the translator
  looks for. Of the characters matched by the regular expression class \<open>\s\<close>, those below
  256 are tab, line feed, vertical tab, form feed, carriage return, space and the
  no-break space.
\<close>

definition is_space :: "char \<Rightarrow> bool" where
  "is_space c =
     (c = CHR 0x09 \<or> c = CHR 0x0A \<or> c = CHR 0x0B \<or> c = CHR 0x0C \<or> c = CHR 0x0D
      \<or> c = CHR 0x20 \<or> c = CHR 0xA0)"

text \<open>
  \<open>s.replace(/pat/g, rep)\<close> for a literal pattern and a replacement without \<open>$\<close>: the
  matches are found from left to right and do not overlap; after a match the scan goes on
  behind it. The translator only uses non-empty patterns; the test \<open>pat \<noteq> []\<close> keeps the
  function total.
\<close>

function replace_all :: "string \<Rightarrow> string \<Rightarrow> string \<Rightarrow> string" where
  "replace_all pat rep [] = []"
| "replace_all pat rep (c # cs) =
     (if pat \<noteq> [] \<and> prefix pat (c # cs)
      then rep @ replace_all pat rep (drop (length pat) (c # cs))
      else c # replace_all pat rep cs)"
  by pat_completeness auto
termination
  by (relation "measure (\<lambda>(pat, rep, s). length s)") auto

text \<open>\<open>s.replace(/\s+/g, '')\<close> deletes every whitespace character.\<close>

definition strip_whitespace :: "string \<Rightarrow> string" where
  "strip_whitespace s = filter (\<lambda>c. \<not> is_space c) s"

text \<open>
  \<open>convertToElectronAccelerator\<close>. The argument is \<open>None\<close> for \<open>null\<close> or \<open>undefined\<close>;
  \<open>!hotkeyString\<close> holds for these and for the empty string.
\<close>

definition convertToElectronAccelerator :: "string option \<Rightarrow> string option" where
  "convertToElectronAccelerator hotkeyString =
     (case hotkeyString of
        None \<Rightarrow> None
      | Some s \<Rightarrow>
          if s = [] then None
          else Some (strip_whitespace
                 (replace_all '' + '' ''+''
                   (replace_all ''Meta'' ''Super''
                     (replace_all ''Ctrl'' ''CommandOrControl'' s)))))"

section \<open>JavaScript objects used as tables\<close>

text \<open>
  \<open>registeredHotkeys\<close> is a plain object used as a table from accelerator to action; its
  prototype is \<open>Object.prototype\<close>. It is modelled by the list of its own properties in the
  order of their creation. Action names are strings.

  Reading \<open>obj[k]\<close> gives the own property when there is one, and otherwise the property
  of that name inherited from \<open>Object.prototype\<close>: a function for eleven names and the
  prototype object for \<open>__proto__\<close>. So a test \<open>if (obj[k])\<close> holds for an own property
  whose value is not the empty string, and for an inherited name that is not an own
  property.

  Assigning a string, \<open>obj[k] = v\<close>, overwrites the own property of that name or creates
  one behind the others. The name \<open>__proto__\<close> is the exception: it is an accessor of
  \<open>Object.prototype\<close> whose setter ignores a string, so the assignment stores nothing (an
  own property of that name, which no assignment creates, would be overwritten).
  \<open>delete obj[k]\<close> removes an own property.
\<close>

definition dunder_proto :: string where
  "dunder_proto = ''__proto__''"

definition prototype_names :: "string list" where
  "prototype_names =
     [''constructor'', ''__defineGetter__'', ''__defineSetter__'', ''hasOwnProperty'',
      ''__lookupGetter__'', ''__lookupSetter__'', ''isPrototypeOf'',
      ''propertyIsEnumerable'', ''toString'', ''valueOf'', dunder_proto,
      ''toLocaleString'']"

definition inherited :: "string \<Rightarrow> bool" where
  "inherited k = (k \<in> set prototype_names)"

definition truthy_at :: "(string \<times> string) list \<Rightarrow> string \<Rightarrow> bool" where
  "truthy_at obj k = (case map_of obj k of Some a \<Rightarrow> a \<noteq> [] | None \<Rightarrow> inherited k)"

definition assign :: "string \<Rightarrow> string \<Rightarrow> (string \<times> string) list \<Rightarrow> (string \<times> string) list" where
  "assign k v obj =
     (if k = dunder_proto \<and> map_of obj k = None then obj else AList.update k v obj)"

text \<open>
  \<open>Object.keys\<close> lists the keys that are array indices (canonical decimal numerals below
  \<open>2^32 - 1\<close>) first, in ascending numeric order, and then the other keys in the order
  of their creation.
\<close>

definition is_digit :: "char \<Rightarrow> bool" where
  "is_digit c = (48 \<le> (of_char c :: int) \<and> (of_char c :: int) \<le> 57)"

definition decimal :: "string \<Rightarrow> int" where
  "decimal s = foldl (\<lambda>n c. 10 * n + ((of_char c :: int) - 48)) 0 s"

definition array_index :: "string \<Rightarrow> int option" where
  "array_index k =
     (if k \<noteq> [] \<and> list_all is_digit k \<and> (k = ''0'' \<or> take 1 k \<noteq> ''0'')
         \<and> decimal k < 4294967295
      then Some (decimal k) else None)"

definition index_rank :: "string \<times> 'v \<Rightarrow> int" where
  "index_rank p = (case array_index (fst p) of None \<Rightarrow> 0 | Some n \<Rightarrow> n)"

definition object_entries :: "(string \<times> 'v) list \<Rightarrow> (string \<times> 'v) list" where
  "object_entries obj =
     sort_key index_rank (filter (\<lambda>p. array_index (fst p) \<noteq> None) obj)
     @ filter (\<lambda>p. array_index (fst p) = None) obj"

definition object_keys :: "(string \<times> 'v) list \<Rightarrow> string list" where
  "object_keys obj = map fst (object_entries obj)"

section \<open>State of the main process\<close>

text \<open>
  A window variable (\<open>controlWin\<close>, \<open>graphicsWin\<close>) is \<open>Absent\<close> while it is undefined,
  \<open>Destroyed\<close> when it holds a window that has been closed, and \<open>Live\<close> otherwise.
\<close>

datatype surface = Absent | Destroyed | Live

text \<open>
  What the control window can be sent: \<open>'global-hotkey-triggered'\<close> with the action, and
  \<open>'hotkey-mode'\<close> with the object \<open>{ mode, accelerator, action }\<close>.
\<close>

datatype control_message =
    GlobalHotkeyTriggered string
  | HotkeyMode string string string

datatype js_error = TypeError | ObjectDestroyed | ShortcutError

text \<open>
  \<open>shortcuts\<close> is the table of the \<open>globalShortcut\<close> module: the registrations that
  were granted and have not been released, each with its accelerator and the action its
  callback closes over. \<open>attempts\<close> counts the calls of
  \<open>globalShortcut.register\<close>. \<open>control_inbox\<close> and \<open>graphics_inbox\<close> list what has been
  delivered to the two windows; the payload of a graphics command is opaque (\<open>'c\<close>).
\<close>

record 'c state =
  registeredHotkeys :: "(string \<times> string) list"
  shortcuts :: "(string \<times> string) list"
  attempts :: nat
  controlWin :: surface
  graphicsWin :: surface
  control_inbox :: "control_message list"
  graphics_inbox :: "'c list"
  quit_requested :: bool

text \<open>
  A step either returns the next state or throws; a thrown error carries the state at
  the moment of the throw, since the effects before it stay.
\<close>

type_synonym 'c result = "(js_error \<times> 'c state) + 'c state"

definition initial :: "surface \<Rightarrow> surface \<Rightarrow> 'c state" where
  "initial cw gw =
     \<lparr>registeredHotkeys = [], shortcuts = [], attempts = 0, controlWin = cw,
      graphicsWin = gw, control_inbox = [], graphics_inbox = [], quit_requested = False\<rparr>"

section \<open>The windows\<close>

text \<open>The test \<open>win && !win.isDestroyed()\<close>.\<close>

definition usable :: "surface \<Rightarrow> bool" where
  "usable w = (case w of Absent \<Rightarrow> False | Destroyed \<Rightarrow> False | Live \<Rightarrow> True)"

text \<open>
  \<open>win.webContents.send(channel, payload)\<close> without any test: reading a property of
  \<open>undefined\<close> is a \<open>TypeError\<close>, and a destroyed window throws too.
\<close>

definition control_send :: "control_message \<Rightarrow> 'c state \<Rightarrow> 'c result" where
  "control_send m st =
     (case controlWin st of
        Absent \<Rightarrow> Inl (TypeError, st)
      | Destroyed \<Rightarrow> Inl (ObjectDestroyed, st)
      | Live \<Rightarrow> Inr (st\<lparr>control_inbox := control_inbox st @ [m]\<rparr>))"

definition graphics_send :: "'c \<Rightarrow> 'c state \<Rightarrow> 'c result" where
  "graphics_send command st =
     (case graphicsWin st of
        Absent \<Rightarrow> Inl (TypeError, st)
      | Destroyed \<Rightarrow> Inl (ObjectDestroyed, st)
      | Live \<Rightarrow> Inr (st\<lparr>graphics_inbox := graphics_inbox st @ [command]\<rparr>))"

section \<open>The globalShortcut module\<close>

text \<open>
  The operating system is outside the program. Its answer to the \<open>n\<close>-th call of
  \<open>globalShortcut.register\<close> is given by a function \<open>os\<close>: the registration is granted
  (the call returns \<open>true\<close>), denied (it returns \<open>false\<close>), or the call throws.
  The module names a registration by its accelerator alone (\<open>register(accelerator,
  callback)\<close>, \<open>unregister(accelerator)\<close>), so its table holds one callback for an
  accelerator: a registration granted for an accelerator that is still held takes the
  place of the one held. Whether such a call is granted at all is left to \<open>os\<close>.
  \<open>unregister\<close> and \<open>unregisterAll\<close> are taken not to throw. Accelerators are compared
  as strings.
\<close>

datatype outcome = Granted | Denied | Throws

definition always :: "outcome \<Rightarrow> nat \<Rightarrow> outcome" where
  "always r n = r"

definition globalShortcut_register ::
  "(nat \<Rightarrow> outcome) \<Rightarrow> string \<Rightarrow> string \<Rightarrow> 'c state \<Rightarrow> (js_error \<times> 'c state) + (bool \<times> 'c state)" where
  "globalShortcut_register os accelerator action st =
     (let st' = st\<lparr>attempts := Suc (attempts st)\<rparr> in
      case os (attempts st) of
        Granted \<Rightarrow>
          Inr (True, st'\<lparr>shortcuts := AList.update accelerator action (shortcuts st')\<rparr>)
      | Denied \<Rightarrow> Inr (False, st')
      | Throws \<Rightarrow> Inl (ShortcutError, st'))"

definition globalShortcut_unregister :: "string \<Rightarrow> 'c state \<Rightarrow> 'c state" where
  "globalShortcut_unregister accelerator st =
     st\<lparr>shortcuts := AList.delete accelerator (shortcuts st)\<rparr>"

definition globalShortcut_unregisterAll :: "'c state \<Rightarrow> 'c state" where
  "globalShortcut_unregisterAll st = st\<lparr>shortcuts := []\<rparr>"

text \<open>
  The callback handed to \<open>globalShortcut.register\<close>; it reads \<open>controlWin\<close> when it runs.
  When the operating system reports an accelerator, the callbacks registered for it run.
\<close>

definition hotkey_callback :: "string \<Rightarrow> 'c state \<Rightarrow> 'c result" where
  "hotkey_callback action st =
     (if usable (controlWin st) then control_send (GlobalHotkeyTriggered action) st
      else Inr st)"

fun forEach :: "('a \<Rightarrow> 's \<Rightarrow> ('e \<times> 's) + 's) \<Rightarrow> 'a list \<Rightarrow> 's \<Rightarrow> ('e \<times> 's) + 's" where
  "forEach f [] st = Inr st"
| "forEach f (x # xs) st =
     (case f x st of Inl err \<Rightarrow> Inl err | Inr st' \<Rightarrow> forEach f xs st')"

definition os_trigger :: "string \<Rightarrow> 'c state \<Rightarrow> 'c result" where
  "os_trigger accelerator st =
     forEach hotkey_callback
       (map snd (filter (\<lambda>p. fst p = accelerator) (shortcuts st))) st"

section \<open>The hotkey registry\<close>

text \<open>The body of the \<open>try\<close> block of \<open>registerGlobalHotkey\<close>.\<close>

definition register_try :: "(nat \<Rightarrow> outcome) \<Rightarrow> string \<Rightarrow> string \<Rightarrow> 'c state \<Rightarrow> 'c result" where
  "register_try os accelerator action st =
     (let st1 = (if truthy_at (registeredHotkeys st) accelerator
                 then globalShortcut_unregister accelerator st else st)
      in case globalShortcut_register os accelerator action st1 of
           Inl err \<Rightarrow> Inl err
         | Inr (success, st2) \<Rightarrow>
             let st3 = st2\<lparr>registeredHotkeys :=
                          assign accelerator action (registeredHotkeys st2)\<rparr>
             in if success then Inr st3
                else if usable (controlWin st3)
                     then control_send (HotkeyMode ''in-window'' accelerator action) st3
                     else Inr st3)"

text \<open>\<open>registerGlobalHotkey\<close>: the \<open>try\<close> block and its \<open>catch\<close>.\<close>

definition registerGlobalHotkey :: "(nat \<Rightarrow> outcome) \<Rightarrow> string \<Rightarrow> string \<Rightarrow> 'c state \<Rightarrow> 'c result" where
  "registerGlobalHotkey os accelerator action st =
     (case register_try os accelerator action st of
        Inr st' \<Rightarrow> Inr st'
      | Inl (error, st') \<Rightarrow>
          Inr (st'\<lparr>registeredHotkeys :=
                   assign accelerator action (registeredHotkeys st')\<rparr>))"

definition unregisterGlobalHotkey :: "string \<Rightarrow> 'c state \<Rightarrow> 'c result" where
  "unregisterGlobalHotkey accelerator st =
     (if truthy_at (registeredHotkeys st) accelerator
      then Inr ((globalShortcut_unregister accelerator st)
                  \<lparr>registeredHotkeys := AList.delete accelerator (registeredHotkeys st)\<rparr>)
      else Inr st)"

section \<open>The handlers\<close>

text \<open>
  \<open>'register-hotkey'\<close> and \<open>'unregister-hotkey'\<close>: the test \<open>if (electronAccelerator)\<close>
  fails for \<open>null\<close> and for the empty string.
\<close>

definition on_register_hotkey ::
  "(nat \<Rightarrow> outcome) \<Rightarrow> string option \<Rightarrow> string \<Rightarrow> 'c state \<Rightarrow> 'c result" where
  "on_register_hotkey os accelerator action st =
     (case convertToElectronAccelerator accelerator of
        None \<Rightarrow> Inr st
      | Some electronAccelerator \<Rightarrow>
          if electronAccelerator = [] then Inr st
          else registerGlobalHotkey os electronAccelerator action st)"

definition on_unregister_hotkey :: "string option \<Rightarrow> 'c state \<Rightarrow> 'c result" where
  "on_unregister_hotkey accelerator st =
     (case convertToElectronAccelerator accelerator of
        None \<Rightarrow> Inr st
      | Some electronAccelerator \<Rightarrow>
          if electronAccelerator = [] then Inr st
          else unregisterGlobalHotkey electronAccelerator st)"

text \<open>
  \<open>'register-all-hotkeys'\<close>. The payload is given by its entries \<open>(action, hotkeyString)\<close>
  in the order of \<open>Object.keys\<close>; a value that is \<open>null\<close> or \<open>undefined\<close> is \<open>None\<close>.
  \<open>register_all_entry\<close> is the body of the second loop.
\<close>

definition register_all_entry ::
  "(nat \<Rightarrow> outcome) \<Rightarrow> string \<times> string option \<Rightarrow> 'c state \<Rightarrow> 'c result" where
  "register_all_entry os entry st =
     (case snd entry of
        None \<Rightarrow> Inr st
      | Some hotkeyString \<Rightarrow>
          if hotkeyString = [] then Inr st
          else (case convertToElectronAccelerator (Some hotkeyString) of
                  None \<Rightarrow> Inr st
                | Some electronAccelerator \<Rightarrow>
                    if electronAccelerator = [] then Inr st
                    else registerGlobalHotkey os electronAccelerator (fst entry) st))"

definition on_register_all_hotkeys ::
  "(nat \<Rightarrow> outcome) \<Rightarrow> (string \<times> string option) list \<Rightarrow> 'c state \<Rightarrow> 'c result" where
  "on_register_all_hotkeys os hotkeys st =
     (let st1 = fold globalShortcut_unregister (object_keys (registeredHotkeys st)) st;
          st2 = st1\<lparr>registeredHotkeys := []\<rparr>
      in forEach (register_all_entry os) hotkeys st2)"

text \<open>\<open>'graphic-command'\<close>.\<close>

definition on_graphic_command :: "'c \<Rightarrow> 'c state \<Rightarrow> 'c result" where
  "on_graphic_command command st =
     (if usable (graphicsWin st) then graphics_send command st else Inr st)"

text \<open>
  The pass scheduled by \<open>setTimeout\<close> after start-up: \<open>currentHotkeys\<close> is a copy of the
  table, the table is emptied, and every entry of the copy is registered again.
\<close>

definition reregister_pass :: "(nat \<Rightarrow> outcome) \<Rightarrow> 'c state \<Rightarrow> 'c result" where
  "reregister_pass os st =
     (let currentHotkeys = object_entries (registeredHotkeys st);
          st1 = st\<lparr>registeredHotkeys := []\<rparr>
      in forEach (\<lambda>entry. registerGlobalHotkey os (fst entry) (snd entry)) currentHotkeys st1)"

text \<open>
  \<open>'window-all-closed'\<close> and \<open>'will-quit'\<close>; \<open>platform\<close> is \<open>process.platform\<close>, and
  \<open>app.quit()\<close> is recorded in \<open>quit_requested\<close>.
\<close>

definition on_window_all_closed :: "string \<Rightarrow> 'c state \<Rightarrow> 'c result" where
  "on_window_all_closed platform st =
     (let st1 = globalShortcut_unregisterAll st
      in if platform \<noteq> ''darwin'' then Inr (st1\<lparr>quit_requested := True\<rparr>) else Inr st1)"

definition on_will_quit :: "'c state \<Rightarrow> 'c result" where
  "on_will_quit st = Inr (globalShortcut_unregisterAll st)"

section \<open>Sequences of requests\<close>

text \<open>
  What can happen to the registry between start-up and shutdown: a call of
  \<open>registerGlobalHotkey\<close> or \<open>unregisterGlobalHotkey\<close>, one of the three messages of the
  control window, the pass after start-up, a hotkey reported by the operating system, and
  a change of the two window variables (windows are created by \<open>createWindows\<close> and closed
  by the user).
\<close>

datatype request =
    Register string string
  | Unregister string
  | OnRegisterHotkey "string option" string
  | OnUnregisterHotkey "string option"
  | RegisterAll "(string \<times> string option) list"
  | Reregister
  | Trigger string
  | SetWindows surface surface

fun handle :: "(nat \<Rightarrow> outcome) \<Rightarrow> request \<Rightarrow> 'c state \<Rightarrow> 'c result" where
  "handle os (Register accelerator action) st = registerGlobalHotkey os accelerator action st"
| "handle os (Unregister accelerator) st = unregisterGlobalHotkey accelerator st"
| "handle os (OnRegisterHotkey accelerator action) st =
     on_register_hotkey os accelerator action st"
| "handle os (OnUnregisterHotkey accelerator) st = on_unregister_hotkey accelerator st"
| "handle os (RegisterAll hotkeys) st = on_register_all_hotkeys os hotkeys st"
| "handle os Reregister st = reregister_pass os st"
| "handle os (Trigger accelerator) st = os_trigger accelerator st"
| "handle os (SetWindows cw gw) st = Inr (st\<lparr>controlWin := cw, graphicsWin := gw\<rparr>)"

definition run :: "(nat \<Rightarrow> outcome) \<Rightarrow> request list \<Rightarrow> 'c state \<Rightarrow> 'c result" where
  "run os requests st = forEach (handle os) requests st"

text \<open>
  What every state reached from the initial one satisfies: a name is an own property of
  the table at most once, \<open>__proto__\<close> is not an own property, and the module holds at
  most one registration for an accelerator.
\<close>

definition well_formed :: "'c state \<Rightarrow> bool" where
  "well_formed st =
     (distinct (map fst (registeredHotkeys st))
      \<and> map_of (registeredHotkeys st) dunder_proto = None
      \<and> distinct (map fst (shortcuts st)))"

text \<open>The entries of the two tables for one accelerator.\<close>

definition bindings_for :: "string \<Rightarrow> 'c state \<Rightarrow> (string \<times> string) list" where
  "bindings_for accelerator st = filter (\<lambda>p. fst p = accelerator) (registeredHotkeys st)"

definition registrations_for :: "string \<Rightarrow> 'c state \<Rightarrow> (string \<times> string) list" where
  "registrations_for accelerator st = filter (\<lambda>p. fst p = accelerator) (shortcuts st)"

section \<open>Properties of the translator\<close>

text \<open>
  Two equations fix what \<open>replace_all\<close> computes: a string without the pattern is left as
  it is, and a string whose first occurrence of the pattern starts behind \<open>xs\<close> has that
  occurrence replaced and the scan goes on behind it.
\<close>

lemma replace_all_absent: "\<not> sublist pat s \<Longrightarrow> replace_all pat rep s = s"
proof (induction s)
  case Nil
  then show ?case by simp
next
  case (Cons c cs)
  then show ?case by (auto simp: sublist_Cons_right)
qed

lemma prefix_in_front:
  assumes "pat \<noteq> []" "prefix pat (xs @ pat @ ys)" "xs \<noteq> []"
  shows "prefix pat (xs @ butlast pat)"
proof -
  have "length pat \<le> length (xs @ butlast pat)"
    using assms(1,3) by (cases xs) auto
  moreover have "xs @ pat @ ys = (xs @ butlast pat) @ (last pat # ys)"
    using assms(1) by simp
  ultimately show ?thesis
    using assms(2) by (metis prefix_length_prefix prefixI)
qed

lemma replace_all_first:
  "pat \<noteq> [] \<Longrightarrow> \<not> sublist pat (xs @ butlast pat) \<Longrightarrow>
   replace_all pat rep (xs @ pat @ ys) = xs @ rep @ replace_all pat rep ys"
proof (induction xs)
  case Nil
  then show ?case by (cases pat) simp_all
next
  case (Cons x xs)
  have np: "\<not> prefix pat ((x # xs) @ pat @ ys)"
  proof
    assume "prefix pat ((x # xs) @ pat @ ys)"
    with Cons.prems(1) have "prefix pat ((x # xs) @ butlast pat)"
      by (intro prefix_in_front) simp_all
    then have "sublist pat ((x # xs) @ butlast pat)"
      by (rule prefix_imp_sublist)
    with Cons.prems(2) show False by simp
  qed
  have "\<not> sublist pat (xs @ butlast pat)"
    using Cons.prems(2) by (simp add: sublist_Cons_right)
  with Cons.IH Cons.prems(1)
  have "replace_all pat rep (xs @ pat @ ys) = xs @ rep @ replace_all pat rep ys"
    by simp
  with np show ?case by simp
qed

lemma replace_all_length_ge:
  "length pat \<le> length rep \<Longrightarrow> length s \<le> length (replace_all pat rep s)"
proof (induction pat rep s rule: replace_all.induct)
  case (1 pat rep)
  then show ?case by simp
next
  case (2 pat rep c cs)
  then show ?case by (auto simp: prefix_def)
qed

lemma replace_all_length_gt:
  "pat \<noteq> [] \<Longrightarrow> length pat < length rep \<Longrightarrow> sublist pat s \<Longrightarrow>
   length s < length (replace_all pat rep s)"
proof (induction pat rep s rule: replace_all.induct)
  case (1 pat rep)
  then show ?case by simp
next
  case (2 pat rep c cs)
  show ?case
  proof (cases "prefix pat (c # cs)")
    case True
    have "length (drop (length pat) (c # cs))
          \<le> length (replace_all pat rep (drop (length pat) (c # cs)))"
      using 2(4) by (intro replace_all_length_ge) simp
    moreover have "length pat \<le> length (c # cs)"
      using True by (rule prefix_length_le)
    ultimately show ?thesis
      using True 2(3,4) by simp
  next
    case False
    then have "sublist pat cs"
      using 2(5) by (simp add: sublist_Cons_right)
    then show ?thesis
      using False 2 by simp
  qed
qed

lemma replace_all_set: "set (replace_all pat rep s) \<subseteq> set rep \<union> set s"
proof (induction pat rep s rule: replace_all.induct)
  case (1 pat rep)
  then show ?case by simp
next
  case (2 pat rep c cs)
  show ?case
  proof (cases "pat \<noteq> [] \<and> prefix pat (c # cs)")
    case True
    have "set (drop (length pat) (c # cs)) \<subseteq> set (c # cs)"
      by (rule set_drop_subset)
    with True 2(1) show ?thesis by auto
  next
    case False
    with 2(2) show ?thesis by auto
  qed
qed

lemma strip_whitespace_none: "\<forall>c\<in>set s. \<not> is_space c \<Longrightarrow> strip_whitespace s = s"
  by (simp add: strip_whitespace_def)

lemma no_separator: "\<forall>c\<in>set s. \<not> is_space c \<Longrightarrow> \<not> sublist '' + '' s"
proof
  assume clean: "\<forall>c\<in>set s. \<not> is_space c" and "sublist '' + '' s"
  then have "set '' + '' \<subseteq> set s"
    by (intro set_mono_sublist)
  then have "CHR '' '' \<in> set s" by simp
  moreover have "is_space CHR '' ''"
    by (simp add: is_space_def)
  ultimately show False
    using clean by blast
qed

lemma translated_clean:
  "convertToElectronAccelerator h = Some t \<Longrightarrow> \<forall>c\<in>set t. \<not> is_space c"
  by (auto simp: convertToElectronAccelerator_def strip_whitespace_def
      split: option.splits if_splits)

text \<open>
  C7. The translator returns \<open>null\<close> exactly for an absent or empty input. A non-empty
  input goes through the four steps in this order: every \<open>Ctrl\<close> becomes
  \<open>CommandOrControl\<close>, every \<open>Meta\<close> becomes \<open>Super\<close>, every \<open>" + "\<close> becomes \<open>"+"\<close>, and all
  whitespace left is deleted. What a step does is fixed by equations. A replacement
  leaves a string without the token as it is, and in a string whose first occurrence of
  the token starts behind \<open>xs\<close> it replaces that occurrence and goes on behind it. The
  last step goes through the string character by character, drops a character that is
  whitespace and keeps any other; whitespace is tab, line feed, vertical tab, form feed,
  carriage return, space and no-break space. So \<open>translate("")\<close> and \<open>translate(null)\<close>
  are \<open>null\<close>, \<open>translate("Ctrl + Shift + K")\<close> is \<open>"CommandOrControl+Shift+K"\<close>, blanks
  that the third step leaves are deleted by the fourth, the fourth step comes after the
  first, and an input of whitespace only gives the empty string, not \<open>null\<close>.
\<close>

theorem translator_contract:
  "(convertToElectronAccelerator h = None \<longleftrightarrow> h = None \<or> h = Some [])
   \<and> (s \<noteq> [] \<longrightarrow>
        convertToElectronAccelerator (Some s) =
          Some (strip_whitespace
                 (replace_all '' + '' ''+''
                   (replace_all ''Meta'' ''Super''
                     (replace_all ''Ctrl'' ''CommandOrControl'' s)))))
   \<and> (\<not> sublist pat t \<longrightarrow> replace_all pat rep t = t)
   \<and> (pat \<noteq> [] \<and> \<not> sublist pat (xs @ butlast pat) \<longrightarrow>
        replace_all pat rep (xs @ pat @ ys) = xs @ rep @ replace_all pat rep ys)
   \<and> strip_whitespace [] = []
   \<and> strip_whitespace (c # cs) =
       (if is_space c then strip_whitespace cs else c # strip_whitespace cs)
   \<and> (is_space c \<longleftrightarrow>
        c \<in> set [CHR 0x09, CHR 0x0A, CHR 0x0B, CHR 0x0C, CHR 0x0D, CHR 0x20, CHR 0xA0])
   \<and> convertToElectronAccelerator (Some []) = None
   \<and> convertToElectronAccelerator None = None
   \<and> convertToElectronAccelerator (Some ''Ctrl + Shift + K'') = Some ''CommandOrControl+Shift+K''
   \<and> convertToElectronAccelerator (Some ''Ctrl  +  Meta +K'') = Some ''CommandOrControl+Super+K''
   \<and> convertToElectronAccelerator
        (Some (''Shift'' @ [CHR 0x09, CHR 0x0A, CHR 0x0B, CHR 0x0C, CHR 0x0D, CHR 0x20, CHR 0xA0]
               @ ''K'')) = Some ''ShiftK''
   \<and> convertToElectronAccelerator (Some ''C trl'') = Some ''Ctrl''
   \<and> convertToElectronAccelerator (Some '' '') = Some []"
proof -
  have null: "convertToElectronAccelerator h = None \<longleftrightarrow> h = None \<or> h = Some []"
    by (cases h) (simp_all add: convertToElectronAccelerator_def)
  have steps: "s \<noteq> [] \<longrightarrow>
        convertToElectronAccelerator (Some s) =
          Some (strip_whitespace
                 (replace_all '' + '' ''+''
                   (replace_all ''Meta'' ''Super''
                     (replace_all ''Ctrl'' ''CommandOrControl'' s))))"
    by (simp add: convertToElectronAccelerator_def)
  have absent: "\<not> sublist pat t \<longrightarrow> replace_all pat rep t = t"
    by (simp add: replace_all_absent)
  have first: "pat \<noteq> [] \<and> \<not> sublist pat (xs @ butlast pat) \<longrightarrow>
        replace_all pat rep (xs @ pat @ ys) = xs @ rep @ replace_all pat rep ys"
    by (simp add: replace_all_first)
  have nil: "strip_whitespace [] = []"
    by (simp add: strip_whitespace_def)
  have cons: "strip_whitespace (c # cs) =
       (if is_space c then strip_whitespace cs else c # strip_whitespace cs)"
    by (simp add: strip_whitespace_def)
  have space: "is_space c \<longleftrightarrow>
        c \<in> set [CHR 0x09, CHR 0x0A, CHR 0x0B, CHR 0x0C, CHR 0x0D, CHR 0x20, CHR 0xA0]"
    by (simp add: is_space_def)
  have e1: "convertToElectronAccelerator (Some []) = None"
    by (simp add: convertToElectronAccelerator_def)
  have e2: "convertToElectronAccelerator None = None"
    by (simp add: convertToElectronAccelerator_def)
  have e3: "convertToElectronAccelerator (Some ''Ctrl + Shift + K'')
            = Some ''CommandOrControl+Shift+K''"
    by (simp add: convertToElectronAccelerator_def strip_whitespace_def is_space_def)
  have e4: "convertToElectronAccelerator (Some ''Ctrl  +  Meta +K'')
            = Some ''CommandOrControl+Super+K''"
    by (simp add: convertToElectronAccelerator_def strip_whitespace_def is_space_def)
  have e5: "convertToElectronAccelerator
        (Some (''Shift'' @ [CHR 0x09, CHR 0x0A, CHR 0x0B, CHR 0x0C, CHR 0x0D, CHR 0x20, CHR 0xA0]
               @ ''K'')) = Some ''ShiftK''"
    by (simp add: convertToElectronAccelerator_def strip_whitespace_def is_space_def)
  have e6: "convertToElectronAccelerator (Some ''C trl'') = Some ''Ctrl''"
    by (simp add: convertToElectronAccelerator_def strip_whitespace_def is_space_def)
  have e7: "convertToElectronAccelerator (Some '' '') = Some []"
    by (simp add: convertToElectronAccelerator_def strip_whitespace_def is_space_def)
  show ?thesis
    by (intro conjI) (fact null, fact steps, fact absent, fact first, fact nil, fact cons,
        fact space, fact e1, fact e2, fact e3, fact e4, fact e5, fact e6, fact e7)
qed

theorem translator_contract_witness:
  "convertToElectronAccelerator (Some []) = None
   \<and> convertToElectronAccelerator (Some ''Meta  +  Ctrl +P'') = Some ''Super+CommandOrControl+P''
   \<and> replace_all ''Ctrl'' ''CommandOrControl'' ''Shift + P'' = ''Shift + P''
   \<and> replace_all ''Ctrl'' ''CommandOrControl'' ''Alt+Ctrl+Ctrl''
       = ''Alt+CommandOrControl+CommandOrControl''
   \<and> strip_whitespace '' K L'' = ''KL''
   \<and> is_space CHR '' ''"
proof -
  note T = translator_contract [where h = "Some []" and s = "''Meta  +  Ctrl +P''"
      and pat = "''Ctrl''" and rep = "''CommandOrControl''" and t = "''Shift + P''"
      and xs = "''Alt+''" and ys = "''+Ctrl''" and c = "CHR '' ''" and cs = "''K L''"]
  have a: "''Meta  +  Ctrl +P'' \<noteq> []" by simp
  have b: "\<not> sublist ''Ctrl'' ''Shift + P''"
    by code_simp
  have c: "''Ctrl'' \<noteq> [] \<and> \<not> sublist ''Ctrl'' (''Alt+'' @ butlast ''Ctrl'')"
    by code_simp
  show ?thesis
    using T a b c by (simp add: strip_whitespace_def is_space_def)
qed

text \<open>
  C6 as stated fails. Deleting the whitespace can bring a token into being that the
  first step has not seen: \<open>"C trl"\<close> is translated to \<open>"Ctrl"\<close>, and \<open>"Ctrl"\<close> to
  \<open>"CommandOrControl"\<close>.
\<close>

theorem translator_not_idempotent:
  "convertToElectronAccelerator (Some ''C trl'') = Some ''Ctrl''
   \<and> convertToElectronAccelerator (convertToElectronAccelerator (Some ''C trl''))
       = Some ''CommandOrControl''
   \<and> convertToElectronAccelerator (convertToElectronAccelerator (Some ''C trl''))
       \<noteq> convertToElectronAccelerator (Some ''C trl'')"
  by (simp add: convertToElectronAccelerator_def strip_whitespace_def is_space_def)

text \<open>
  C6, amended. An output \<open>t\<close> of the translator is translated to itself exactly when it
  is not empty and contains neither \<open>Ctrl\<close> nor \<open>Meta\<close>.
\<close>

theorem translator_fixed_point:
  assumes "convertToElectronAccelerator h = Some t"
  shows "convertToElectronAccelerator (Some t) = Some t \<longleftrightarrow>
         t \<noteq> [] \<and> \<not> sublist ''Ctrl'' t \<and> \<not> sublist ''Meta'' t"
proof -
  let ?a = "replace_all ''Ctrl'' ''CommandOrControl'' t"
  let ?b = "replace_all ''Meta'' ''Super'' ?a"
  from assms have ns: "\<forall>c\<in>set t. \<not> is_space c"
    by (rule translated_clean)
  have nsa: "\<forall>c\<in>set ?a. \<not> is_space c"
    using ns replace_all_set [of "''Ctrl''" "''CommandOrControl''" t]
    by (auto simp: is_space_def)
  have nsb: "\<forall>c\<in>set ?b. \<not> is_space c"
    using nsa replace_all_set [of "''Meta''" "''Super''" ?a]
    by (auto simp: is_space_def)
  have eq: "t \<noteq> [] \<Longrightarrow> convertToElectronAccelerator (Some t) = Some ?b"
    using nsb
    by (simp add: convertToElectronAccelerator_def replace_all_absent no_separator
        strip_whitespace_none)
  show ?thesis
  proof
    assume fp: "convertToElectronAccelerator (Some t) = Some t"
    then have ne: "t \<noteq> []"
      by (auto simp: convertToElectronAccelerator_def split: if_splits)
    with eq fp have bt: "?b = t" by simp
    have lb: "length ?a \<le> length ?b"
      by (rule replace_all_length_ge) simp
    have c: "\<not> sublist ''Ctrl'' t"
    proof
      assume "sublist ''Ctrl'' t"
      then have "length t < length ?a"
        by (intro replace_all_length_gt) simp_all
      with lb bt show False by simp
    qed
    then have at: "?a = t"
      by (rule replace_all_absent)
    have m: "\<not> sublist ''Meta'' t"
    proof
      assume "sublist ''Meta'' t"
      then have "length t < length (replace_all ''Meta'' ''Super'' t)"
        by (intro replace_all_length_gt) simp_all
      with at bt show False by simp
    qed
    from ne c m show "t \<noteq> [] \<and> \<not> sublist ''Ctrl'' t \<and> \<not> sublist ''Meta'' t"
      by simp
  next
    assume "t \<noteq> [] \<and> \<not> sublist ''Ctrl'' t \<and> \<not> sublist ''Meta'' t"
    then show "convertToElectronAccelerator (Some t) = Some t"
      using eq by (simp add: replace_all_absent)
  qed
qed

theorem translator_fixed_point_witness:
  "convertToElectronAccelerator (Some ''Ctrl + Shift + K'') = Some ''CommandOrControl+Shift+K''
   \<and> convertToElectronAccelerator (Some ''CommandOrControl+Shift+K'')
       = Some ''CommandOrControl+Shift+K''"
proof -
  have h: "convertToElectronAccelerator (Some ''Ctrl + Shift + K'')
           = Some ''CommandOrControl+Shift+K''"
    by (simp add: convertToElectronAccelerator_def strip_whitespace_def is_space_def)
  have "\<not> sublist ''Ctrl'' ''CommandOrControl+Shift+K''"
    by code_simp
  moreover have "\<not> sublist ''Meta'' ''CommandOrControl+Shift+K''"
    by code_simp
  ultimately show ?thesis
    using h translator_fixed_point [OF h] by simp
qed

section \<open>Properties of the registry\<close>

text \<open>
  What \<open>registerGlobalHotkey\<close> returns, in one equation: the binding is assigned whatever
  the operating system answers; an earlier registration is released first when the test
  of the table holds for the accelerator; a granted registration is entered in the table
  of the module; the fallback message goes out only when the registration is denied and
  the control window can be used.
\<close>

lemma registerGlobalHotkey_eq:
  "registerGlobalHotkey os A act st =
     Inr (st\<lparr>registeredHotkeys := assign A act (registeredHotkeys st),
            shortcuts :=
              (if os (attempts st) = Granted then AList.update A act else (\<lambda>held. held))
                (if truthy_at (registeredHotkeys st) A then AList.delete A (shortcuts st)
                 else shortcuts st),
            attempts := Suc (attempts st),
            control_inbox :=
              control_inbox st
              @ (if os (attempts st) = Denied \<and> usable (controlWin st)
                 then [HotkeyMode ''in-window'' A act] else [])\<rparr>)"
  by (cases "os (attempts st)"; cases "controlWin st")
     (simp_all add: registerGlobalHotkey_def register_try_def globalShortcut_register_def
        globalShortcut_unregister_def control_send_def usable_def Let_def)

text \<open>The names used in the examples are not inherited, and \<open>__proto__\<close> is.\<close>

lemma inherited_dunder_proto: "inherited dunder_proto"
  by (simp add: inherited_def prototype_names_def)

lemma plain_names:
  "\<not> inherited ''F5''" "''F5'' \<noteq> dunder_proto"
  "\<not> inherited ''F6''" "''F6'' \<noteq> dunder_proto"
  "\<not> inherited ''CommandOrControl+S''" "''CommandOrControl+S'' \<noteq> dunder_proto"
  "\<not> inherited ''CommandOrControl+P''" "''CommandOrControl+P'' \<noteq> dunder_proto"
  "\<not> inherited ''Super+S''" "''Super+S'' \<noteq> dunder_proto"
  by (simp_all add: inherited_def prototype_names_def dunder_proto_def)

lemma assign_lookup:
  "map_of (assign k v obj) k' =
     (if k = dunder_proto \<and> map_of obj k = None then map_of obj k'
      else if k' = k then Some v else map_of obj k')"
  by (auto simp: assign_def AList.update_conv')

lemma assign_others: "AList.delete k (assign k v obj) = AList.delete k obj"
  by (simp add: assign_def AList.delete_update_same)

lemma assign_distinct: "distinct (map fst obj) \<Longrightarrow> distinct (map fst (assign k v obj))"
  by (simp add: assign_def AList.distinct_update)

lemma assign_no_dunder_proto:
  "map_of obj dunder_proto = None \<Longrightarrow> map_of (assign k v obj) dunder_proto = None"
  by (simp add: assign_lookup)

lemma usable_iff: "usable w \<longleftrightarrow> w = Live"
  by (cases w) (simp_all add: usable_def)

lemma forEach_invariant:
  assumes step: "\<And>x s. x \<in> set xs \<Longrightarrow> I s \<Longrightarrow> \<exists>s'. f x s = Inr s' \<and> I s'"
    and start: "I s"
  shows "\<exists>s'. forEach f xs s = Inr s' \<and> I s'"
  using assms
proof (induction xs arbitrary: s)
  case Nil
  then show ?case by simp
next
  case (Cons x xs)
  from Cons.prems obtain s1 where s1: "f x s = Inr s1" "I s1"
    by (meson list.set_intros(1))
  have "\<exists>s'. forEach f xs s1 = Inr s' \<and> I s'"
  proof (rule Cons.IH)
    show "\<exists>s'. f y t = Inr s' \<and> I s'" if "y \<in> set xs" "I t" for y t
      using that Cons.prems(1) by simp
    show "I s1" by (rule s1(2))
  qed
  with s1(1) show ?case by simp
qed

lemma filter_delete:
  "filter P (AList.delete k xs) = filter (\<lambda>p. fst p \<noteq> k \<and> P p) xs"
  by (induction xs) (auto simp: AList.delete_eq)

lemma fold_unregister:
  "fold globalShortcut_unregister ks st =
     st\<lparr>shortcuts := filter (\<lambda>p. fst p \<notin> set ks) (shortcuts st)\<rparr>"
proof (induction ks arbitrary: st)
  case Nil
  then show ?case by simp
next
  case (Cons k ks)
  then show ?case
    by (simp add: globalShortcut_unregister_def filter_delete)
qed

lemma set_object_entries: "set (object_entries obj) = set obj"
  by (auto simp: object_entries_def)

lemma set_object_keys: "set (object_keys obj) = fst ` set obj"
  by (simp add: object_keys_def set_object_entries)

text \<open>
  C1. When \<open>globalShortcut.register\<close> throws, the \<open>catch\<close> block stores the binding and
  nothing is thrown to the caller, but no \<open>'hotkey-mode'\<close> message is sent: with a usable
  control window the denied registration notifies the window and the throwing one does
  not.
\<close>

theorem register_exception_sends_nothing:
  "registerGlobalHotkey (always Throws) ''F5'' ''play'' (initial Live Live :: unit state)
     = Inr \<lparr>registeredHotkeys = [(''F5'', ''play'')], shortcuts = [], attempts = 1,
            controlWin = Live, graphicsWin = Live, control_inbox = [],
            graphics_inbox = [], quit_requested = False\<rparr>
   \<and> registerGlobalHotkey (always Denied) ''F5'' ''play'' (initial Live Live :: unit state)
     = Inr \<lparr>registeredHotkeys = [(''F5'', ''play'')], shortcuts = [], attempts = 1,
            controlWin = Live, graphicsWin = Live,
            control_inbox = [HotkeyMode ''in-window'' ''F5'' ''play''],
            graphics_inbox = [], quit_requested = False\<rparr>"
  by (simp add: registerGlobalHotkey_eq initial_def always_def truthy_at_def assign_def
      plain_names usable_def)

text \<open>
  C2 as stated fails: the handlers of \<open>'window-all-closed'\<close> and \<open>'will-quit'\<close> call
  \<open>globalShortcut.unregisterAll()\<close> and leave \<open>registeredHotkeys\<close> as it is.
\<close>

theorem shutdown_keeps_bookkeeping:
  "on_will_quit
     \<lparr>registeredHotkeys = [(''F5'', ''play'')], shortcuts = [(''F5'', ''play'')],
      attempts = 1, controlWin = Live, graphicsWin = Live, control_inbox = [],
      graphics_inbox = ([] :: unit list), quit_requested = False\<rparr>
   = Inr \<lparr>registeredHotkeys = [(''F5'', ''play'')], shortcuts = [],
          attempts = 1, controlWin = Live, graphicsWin = Live, control_inbox = [],
          graphics_inbox = [], quit_requested = False\<rparr>"
  by (simp add: on_will_quit_def globalShortcut_unregisterAll_def)

text \<open>
  C2, amended. Each shutdown handler releases every registration of the module, does
  not touch the bookkeeping, and throws nothing; run a second time in a row, in either
  order, it returns the state it is given.
\<close>

theorem shutdown_idempotent:
  "on_will_quit st = Inr (st\<lparr>shortcuts := []\<rparr>)
   \<and> on_will_quit (st\<lparr>shortcuts := []\<rparr>) = Inr (st\<lparr>shortcuts := []\<rparr>)
   \<and> on_window_all_closed platform st =
       Inr (st\<lparr>shortcuts := [],
              quit_requested := (if platform = ''darwin'' then quit_requested st else True)\<rparr>)
   \<and> on_window_all_closed platform
        (st\<lparr>shortcuts := [],
            quit_requested := (if platform = ''darwin'' then quit_requested st else True)\<rparr>)
       = Inr (st\<lparr>shortcuts := [],
              quit_requested := (if platform = ''darwin'' then quit_requested st else True)\<rparr>)
   \<and> on_will_quit
        (st\<lparr>shortcuts := [],
            quit_requested := (if platform = ''darwin'' then quit_requested st else True)\<rparr>)
       = Inr (st\<lparr>shortcuts := [],
              quit_requested := (if platform = ''darwin'' then quit_requested st else True)\<rparr>)
   \<and> registeredHotkeys (st\<lparr>shortcuts := []\<rparr>) = registeredHotkeys st"
  by (simp add: on_will_quit_def on_window_all_closed_def globalShortcut_unregisterAll_def
      Let_def)

theorem shutdown_idempotent_witness:
  "on_window_all_closed ''linux''
     \<lparr>registeredHotkeys = [(''F5'', ''play'')], shortcuts = [(''F5'', ''play'')],
      attempts = 1, controlWin = Destroyed, graphicsWin = Destroyed, control_inbox = [],
      graphics_inbox = ([] :: unit list), quit_requested = False\<rparr>
   = Inr \<lparr>registeredHotkeys = [(''F5'', ''play'')], shortcuts = [],
          attempts = 1, controlWin = Destroyed, graphicsWin = Destroyed, control_inbox = [],
          graphics_inbox = [], quit_requested = True\<rparr>
   \<and> on_will_quit
     \<lparr>registeredHotkeys = [(''F5'', ''play'')], shortcuts = [],
      attempts = 1, controlWin = Destroyed, graphicsWin = Destroyed, control_inbox = [],
      graphics_inbox = ([] :: unit list), quit_requested = True\<rparr>
   = Inr \<lparr>registeredHotkeys = [(''F5'', ''play'')], shortcuts = [],
          attempts = 1, controlWin = Destroyed, graphicsWin = Destroyed, control_inbox = [],
          graphics_inbox = [], quit_requested = True\<rparr>"
  using shutdown_idempotent [where platform = "''linux''" and st =
      "\<lparr>registeredHotkeys = [(''F5'', ''play'')], shortcuts = [(''F5'', ''play'')],
        attempts = 1, controlWin = Destroyed, graphicsWin = Destroyed, control_inbox = [],
        graphics_inbox = ([] :: unit list), quit_requested = False\<rparr>"]
  by simp

text \<open>
  C4 as stated fails, in two ways. With the control window closed, a denied registration
  sends no message at all. And for the accelerator \<open>__proto__\<close> the assignment stores
  nothing, so the binding is not in the bookkeeping afterwards.
\<close>

theorem denied_without_window_sends_nothing:
  "registerGlobalHotkey (always Denied) ''F5'' ''play'' (initial Destroyed Live :: unit state)
     = Inr \<lparr>registeredHotkeys = [(''F5'', ''play'')], shortcuts = [], attempts = 1,
            controlWin = Destroyed, graphicsWin = Live, control_inbox = [],
            graphics_inbox = [], quit_requested = False\<rparr>
   \<and> registerGlobalHotkey (always Denied) ''__proto__'' ''play''
       (initial Live Live :: unit state)
     = Inr \<lparr>registeredHotkeys = [], shortcuts = [], attempts = 1,
            controlWin = Live, graphicsWin = Live,
            control_inbox = [HotkeyMode ''in-window'' ''__proto__'' ''play''],
            graphics_inbox = [], quit_requested = False\<rparr>"
  by (simp add: registerGlobalHotkey_eq initial_def always_def truthy_at_def assign_def
      plain_names dunder_proto_def usable_def)

text \<open>
  C4, amended. When the registration is denied, nothing is thrown. For every accelerator
  \<open>A\<close> other than \<open>__proto__\<close> the binding \<open>A \<rightarrow> action\<close> is in the bookkeeping afterwards; for
  \<open>__proto__\<close>, which is not an own property of the table, the lookup stays empty. The
  control window receives exactly one message, \<open>'hotkey-mode'\<close> with
  \<open>{ mode: "in-window", accelerator: A, action }\<close>, when it can be used, and none when it
  is absent or destroyed.
\<close>

theorem denied_registration_falls_back:
  assumes "os (attempts st) = Denied"
  shows "\<exists>st'. registerGlobalHotkey os A action st = Inr st'
           \<and> map_of (registeredHotkeys st') A =
               (if A = dunder_proto \<and> map_of (registeredHotkeys st) A = None then None
                else Some action)
           \<and> control_inbox st' =
               control_inbox st
               @ (if controlWin st = Live then [HotkeyMode ''in-window'' A action] else [])"
  using assms by (auto simp: registerGlobalHotkey_eq usable_iff assign_lookup)

theorem denied_registration_falls_back_witness:
  "always Denied (attempts (initial Live Absent :: unit state)) = Denied
   \<and> (\<exists>st'. registerGlobalHotkey (always Denied) ''F5'' ''play''
               (initial Live Absent :: unit state) = Inr st'
           \<and> map_of (registeredHotkeys st') ''F5'' = Some ''play''
           \<and> control_inbox st' = [HotkeyMode ''in-window'' ''F5'' ''play''])
   \<and> (\<exists>st'. registerGlobalHotkey (always Denied) dunder_proto ''play''
               (initial Destroyed Absent :: unit state) = Inr st'
           \<and> map_of (registeredHotkeys st') dunder_proto = None
           \<and> control_inbox st' = [])"
proof -
  have d: "always Denied (attempts (initial cw Absent :: unit state)) = Denied" for cw
    by (simp add: always_def)
  show ?thesis
    using d [of Live] d [of Destroyed]
      denied_registration_falls_back [where os = "always Denied"
        and st = "initial Live Absent :: unit state" and A = "''F5''" and action = "''play''"]
      denied_registration_falls_back [where os = "always Denied"
        and st = "initial Destroyed Absent :: unit state" and A = dunder_proto
        and action = "''play''"]
    by (simp add: initial_def plain_names)
qed

text \<open>
  C8. The handler of \<open>'graphic-command'\<close> delivers the command, as it is and once, to a
  graphics window that can be used, and changes nothing else; with the window absent or
  destroyed it changes nothing. It never throws.
\<close>

theorem relay_delivers_or_drops:
  "(graphicsWin st = Live \<longrightarrow>
      on_graphic_command command st =
        Inr (st\<lparr>graphics_inbox := graphics_inbox st @ [command]\<rparr>))
   \<and> (graphicsWin st \<noteq> Live \<longrightarrow> on_graphic_command command st = Inr st)"
  by (cases "graphicsWin st")
     (simp_all add: on_graphic_command_def graphics_send_def usable_def)

theorem relay_delivers_or_drops_witness:
  "on_graphic_command ''show'' (initial Live Live) =
     Inr \<lparr>registeredHotkeys = [], shortcuts = [], attempts = 0, controlWin = Live,
          graphicsWin = Live, control_inbox = [], graphics_inbox = [''show''],
          quit_requested = False\<rparr>
   \<and> on_graphic_command ''show'' (initial Live Destroyed) = Inr (initial Live Destroyed)
   \<and> on_graphic_command ''show'' (initial Live Absent) = Inr (initial Live Absent)"
  using relay_delivers_or_drops [of "initial Live Live" "''show''"]
    relay_delivers_or_drops [of "initial Live Destroyed" "''show''"]
    relay_delivers_or_drops [of "initial Live Absent" "''show''"]
  by (simp add: initial_def)

text \<open>
  C10. \<open>registerGlobalHotkey\<close> and \<open>unregisterGlobalHotkey\<close> for an accelerator \<open>A\<close> leave
  the bookkeeping of every other accelerator as it was: the lookups agree, and so do the
  entries and their order. The handler of \<open>'graphic-command'\<close> leaves the whole
  bookkeeping as it was.
\<close>

theorem registry_frame:
  "(\<exists>st'. registerGlobalHotkey os A action st = Inr st'
        \<and> (\<forall>B. B \<noteq> A \<longrightarrow>
              map_of (registeredHotkeys st') B = map_of (registeredHotkeys st) B)
        \<and> AList.delete A (registeredHotkeys st') = AList.delete A (registeredHotkeys st))
   \<and> (\<exists>st'. unregisterGlobalHotkey A st = Inr st'
        \<and> (\<forall>B. B \<noteq> A \<longrightarrow>
              map_of (registeredHotkeys st') B = map_of (registeredHotkeys st) B)
        \<and> AList.delete A (registeredHotkeys st') = AList.delete A (registeredHotkeys st))
   \<and> (\<exists>st'. on_graphic_command command st = Inr st'
        \<and> registeredHotkeys st' = registeredHotkeys st)"
proof -
  have reg: "\<exists>st'. registerGlobalHotkey os A action st = Inr st'
        \<and> (\<forall>B. B \<noteq> A \<longrightarrow>
              map_of (registeredHotkeys st') B = map_of (registeredHotkeys st) B)
        \<and> AList.delete A (registeredHotkeys st') = AList.delete A (registeredHotkeys st)"
    by (simp add: registerGlobalHotkey_eq assign_lookup assign_others)
  have unreg: "\<exists>st'. unregisterGlobalHotkey A st = Inr st'
        \<and> (\<forall>B. B \<noteq> A \<longrightarrow>
              map_of (registeredHotkeys st') B = map_of (registeredHotkeys st) B)
        \<and> AList.delete A (registeredHotkeys st') = AList.delete A (registeredHotkeys st)"
    by (simp add: unregisterGlobalHotkey_def globalShortcut_unregister_def
        AList.delete_conv' AList.delete_idem)
  have relay: "\<exists>st'. on_graphic_command command st = Inr st'
        \<and> registeredHotkeys st' = registeredHotkeys st"
    by (cases "graphicsWin st")
       (simp_all add: on_graphic_command_def graphics_send_def usable_def)
  show ?thesis
    by (intro conjI) (fact reg, fact unreg, fact relay)
qed

theorem registry_frame_witness:
  "(\<exists>st'. registerGlobalHotkey (always Granted) ''F5'' ''stop''
            \<lparr>registeredHotkeys = [(''F5'', ''play''), (''F6'', ''next'')],
             shortcuts = [(''F5'', ''play''), (''F6'', ''next'')], attempts = 2,
             controlWin = Live, graphicsWin = Live, control_inbox = [],
             graphics_inbox = ([] :: unit list), quit_requested = False\<rparr> = Inr st'
        \<and> map_of (registeredHotkeys st') ''F6'' = Some ''next''
        \<and> AList.delete ''F5'' (registeredHotkeys st') = [(''F6'', ''next'')])
   \<and> (\<exists>st'. unregisterGlobalHotkey ''F5''
            \<lparr>registeredHotkeys = [(''F5'', ''play''), (''F6'', ''next'')],
             shortcuts = [(''F5'', ''play''), (''F6'', ''next'')], attempts = 2,
             controlWin = Live, graphicsWin = Live, control_inbox = [],
             graphics_inbox = ([] :: unit list), quit_requested = False\<rparr> = Inr st'
        \<and> map_of (registeredHotkeys st') ''F6'' = Some ''next''
        \<and> AList.delete ''F5'' (registeredHotkeys st') = [(''F6'', ''next'')])
   \<and> (\<exists>st'. on_graphic_command ()
            \<lparr>registeredHotkeys = [(''F5'', ''play''), (''F6'', ''next'')],
             shortcuts = [(''F5'', ''play''), (''F6'', ''next'')], attempts = 2,
             controlWin = Live, graphicsWin = Live, control_inbox = [],
             graphics_inbox = ([] :: unit list), quit_requested = False\<rparr> = Inr st'
        \<and> registeredHotkeys st' = [(''F5'', ''play''), (''F6'', ''next'')])"
proof -
  have ne: "''F6'' \<noteq> ''F5''" by simp
  show ?thesis
    using ne plain_names registry_frame [where os = "always Granted" and A = "''F5''"
        and action = "''stop''" and command = "()" and st =
        "\<lparr>registeredHotkeys = [(''F5'', ''play''), (''F6'', ''next'')],
          shortcuts = [(''F5'', ''play''), (''F6'', ''next'')], attempts = 2,
          controlWin = Live, graphicsWin = Live, control_inbox = [],
          graphics_inbox = ([] :: unit list), quit_requested = False\<rparr>"]
    by (auto simp: AList.delete_eq truthy_at_def)
qed

section \<open>Bulk registration and the guards of the sends\<close>

lemma register_all_entry_returns: "\<exists>st'. register_all_entry os entry st = Inr st'"
  by (simp add: register_all_entry_def registerGlobalHotkey_eq split: option.split)

lemma on_register_all_hotkeys_eq:
  "on_register_all_hotkeys os hotkeys st =
     forEach (register_all_entry os) hotkeys
       (st\<lparr>shortcuts :=
             filter (\<lambda>p. fst p \<notin> fst ` set (registeredHotkeys st)) (shortcuts st),
           registeredHotkeys := []\<rparr>)"
  by (simp add: on_register_all_hotkeys_def fold_unregister set_object_keys Let_def)

lemma on_register_all_hotkeys_returns: "\<exists>st'. on_register_all_hotkeys os hotkeys st = Inr st'"
proof -
  have "\<exists>s'. forEach (register_all_entry os) hotkeys s = Inr s' \<and> True" for s :: "'a state"
    by (rule forEach_invariant) (simp_all add: register_all_entry_returns)
  then show ?thesis
    by (simp add: on_register_all_hotkeys_eq)
qed

lemma reregister_pass_returns: "\<exists>st'. reregister_pass os st = Inr st'"
proof -
  have "\<exists>s'. forEach (\<lambda>entry. registerGlobalHotkey os (fst entry) (snd entry)) xs s = Inr s'
          \<and> True" for s :: "'a state" and xs
    by (rule forEach_invariant) (simp_all add: registerGlobalHotkey_eq)
  then show ?thesis
    by (simp add: reregister_pass_def Let_def)
qed

lemma hotkey_callback_eq:
  "hotkey_callback action st =
     Inr (if controlWin st = Live
          then st\<lparr>control_inbox := control_inbox st @ [GlobalHotkeyTriggered action]\<rparr>
          else st)"
  by (cases "controlWin st") (simp_all add: hotkey_callback_def control_send_def usable_def)

lemma os_trigger_returns: "\<exists>st'. os_trigger A st = Inr st'"
proof -
  have "\<exists>s'. forEach hotkey_callback xs st = Inr s' \<and> True" for xs
    by (rule forEach_invariant) (simp_all add: hotkey_callback_eq)
  then show ?thesis
    by (simp add: os_trigger_def)
qed

lemma os_trigger_frame:
  "\<exists>st'. os_trigger A st = Inr st'
     \<and> registeredHotkeys st' = registeredHotkeys st \<and> shortcuts st' = shortcuts st"
proof -
  have "\<exists>s'. forEach hotkey_callback xs st = Inr s'
          \<and> (registeredHotkeys s' = registeredHotkeys st \<and> shortcuts s' = shortcuts st)"
    for xs
    by (rule forEach_invariant
          [where I = "\<lambda>s. registeredHotkeys s = registeredHotkeys st
                          \<and> shortcuts s = shortcuts st"])
       (simp_all add: hotkey_callback_eq)
  then show ?thesis
    by (simp add: os_trigger_def)
qed

lemma handle_returns: "\<exists>st'. handle os r st = Inr st'"
  by (cases r)
     (simp_all add: registerGlobalHotkey_eq unregisterGlobalHotkey_def
        on_register_hotkey_def on_unregister_hotkey_def on_register_all_hotkeys_returns
        reregister_pass_returns os_trigger_returns split: option.split)

lemma run_returns: "\<exists>st'. run os requests st = Inr st'"
proof -
  have "\<exists>s'. forEach (handle os) requests st = Inr s' \<and> True"
    by (rule forEach_invariant) (simp_all add: handle_returns)
  then show ?thesis
    by (simp add: run_def)
qed

text \<open>
  C5 as stated fails: a hotkey string that is not empty but consists of whitespace is
  translated to the empty string, and the entry is skipped without any call of
  \<open>globalShortcut.register\<close>.
\<close>

theorem register_all_skips_blank:
  "convertToElectronAccelerator (Some '' '') = Some []
   \<and> on_register_all_hotkeys (always Granted) [(''play'', Some '' '')]
        (initial Live Live :: unit state)
      = Inr \<lparr>registeredHotkeys = [], shortcuts = [], attempts = 0, controlWin = Live,
             graphicsWin = Live, control_inbox = [], graphics_inbox = [],
             quit_requested = False\<rparr>"
  by (simp add: on_register_all_hotkeys_eq register_all_entry_def initial_def
      convertToElectronAccelerator_def strip_whitespace_def is_space_def)

text \<open>
  C5, amended. \<open>registerAll\<close> first releases the registration of every accelerator bound
  in the table and empties the table, then goes through the entries in order and throws
  nothing. An entry whose hotkey string is absent or empty, or is translated to the empty
  string, is skipped: the state stays as it is and no registration is attempted. For any
  other entry \<open>registerGlobalHotkey\<close> is called with the translated string and the action.
  So \<open>registerAll({})\<close> leaves the table empty, and
  \<open>registerAll({ play: "", stop: "Ctrl + S" })\<close> leaves exactly the binding of
  \<open>CommandOrControl+S\<close> to \<open>stop\<close>.
\<close>

theorem register_all_replaces:
  "on_register_all_hotkeys os hotkeys st =
     forEach (register_all_entry os) hotkeys
       (st\<lparr>shortcuts :=
             filter (\<lambda>p. fst p \<notin> fst ` set (registeredHotkeys st)) (shortcuts st),
           registeredHotkeys := []\<rparr>)
   \<and> (\<exists>st'. on_register_all_hotkeys os hotkeys st = Inr st')
   \<and> (h = None \<or> h = Some [] \<or> convertToElectronAccelerator h = Some [] \<longrightarrow>
        register_all_entry os (action, h) st = Inr st)
   \<and> (convertToElectronAccelerator h = Some e \<and> e \<noteq> [] \<longrightarrow>
        register_all_entry os (action, h) st = registerGlobalHotkey os e action st)
   \<and> (\<exists>st'. on_register_all_hotkeys os [] st = Inr st' \<and> registeredHotkeys st' = [])
   \<and> (\<exists>st'. on_register_all_hotkeys os [(''play'', Some []), (''stop'', Some ''Ctrl + S'')] st
               = Inr st'
        \<and> registeredHotkeys st' = [(''CommandOrControl+S'', ''stop'')])"
proof -
  have skip: "h = None \<or> h = Some [] \<or> convertToElectronAccelerator h = Some [] \<longrightarrow>
        register_all_entry os (action, h) st = Inr st"
    by (cases h) (auto simp: register_all_entry_def)
  have call: "convertToElectronAccelerator h = Some e \<and> e \<noteq> [] \<longrightarrow>
        register_all_entry os (action, h) st = registerGlobalHotkey os e action st"
    by (cases h) (auto simp: register_all_entry_def convertToElectronAccelerator_def)
  have none: "\<exists>st'. on_register_all_hotkeys os [] st = Inr st' \<and> registeredHotkeys st' = []"
    by (simp add: on_register_all_hotkeys_eq)
  have tr: "convertToElectronAccelerator (Some ''Ctrl + S'') = Some ''CommandOrControl+S''"
    by (simp add: convertToElectronAccelerator_def strip_whitespace_def is_space_def)
  have two: "\<exists>st'. on_register_all_hotkeys os
                 [(''play'', Some []), (''stop'', Some ''Ctrl + S'')] st = Inr st'
        \<and> registeredHotkeys st' = [(''CommandOrControl+S'', ''stop'')]"
    by (simp add: on_register_all_hotkeys_eq register_all_entry_def tr
        registerGlobalHotkey_eq assign_def plain_names)
  show ?thesis
    by (intro conjI) (fact on_register_all_hotkeys_eq, fact on_register_all_hotkeys_returns,
        fact skip, fact call, fact none, fact two)
qed

theorem register_all_replaces_witness:
  "on_register_all_hotkeys (always Denied)
      [(''play'', Some ''Ctrl + P''), (''next'', None), (''stop'', Some ''Meta + S'')]
      \<lparr>registeredHotkeys = [(''F5'', ''old'')], shortcuts = [(''F5'', ''old'')],
       attempts = 1, controlWin = Destroyed, graphicsWin = Live, control_inbox = [],
       graphics_inbox = ([] :: unit list), quit_requested = False\<rparr>
    = Inr \<lparr>registeredHotkeys = [(''CommandOrControl+P'', ''play''), (''Super+S'', ''stop'')],
           shortcuts = [], attempts = 3, controlWin = Destroyed, graphicsWin = Live,
           control_inbox = [], graphics_inbox = [], quit_requested = False\<rparr>
   \<and> register_all_entry (always Granted) (''next'', None) (initial Live Live :: unit state)
       = Inr (initial Live Live)
   \<and> register_all_entry (always Granted) (''stop'', Some ''Meta + S'')
        (initial Live Live :: unit state)
       = registerGlobalHotkey (always Granted) ''Super+S'' ''stop'' (initial Live Live)"
proof -
  have tr: "convertToElectronAccelerator (Some ''Meta + S'') = Some ''Super+S''
            \<and> ''Super+S'' \<noteq> []"
    by (simp add: convertToElectronAccelerator_def strip_whitespace_def is_space_def)
  have tp: "convertToElectronAccelerator (Some ''Ctrl + P'') = Some ''CommandOrControl+P''"
    by (simp add: convertToElectronAccelerator_def strip_whitespace_def is_space_def)
  have ab: "(None :: string option) = None \<or> (None :: string option) = Some []
            \<or> convertToElectronAccelerator None = Some []"
    by simp
  show ?thesis
    using tr ab
      register_all_replaces [where os = "always Denied" and h = None and action = "''next''"
        and e = "''x''"
        and hotkeys = "[(''play'', Some ''Ctrl + P''), (''next'', None),
                        (''stop'', Some ''Meta + S'')]"
        and st = "\<lparr>registeredHotkeys = [(''F5'', ''old'')], shortcuts = [(''F5'', ''old'')],
          attempts = 1, controlWin = Destroyed, graphicsWin = Live, control_inbox = [],
          graphics_inbox = ([] :: unit list), quit_requested = False\<rparr>"]
      register_all_replaces [where os = "always Granted" and h = None and action = "''next''"
        and e = "''x''" and hotkeys = "[]" and st = "initial Live Live :: unit state"]
      register_all_replaces [where os = "always Granted" and h = "Some ''Meta + S''"
        and action = "''stop''" and e = "''Super+S''" and hotkeys = "[]"
        and st = "initial Live Live :: unit state"]
    by (simp add: register_all_entry_def tp registerGlobalHotkey_eq always_def truthy_at_def
        assign_def plain_names usable_def)
qed

text \<open>
  A send that is not guarded throws when the window is absent or destroyed.
\<close>

lemma unguarded_control_send_throws:
  "controlWin st \<noteq> Live \<Longrightarrow> \<exists>e. control_send m st = Inl (e, st)"
  by (cases "controlWin st") (simp_all add: control_send_def)

lemma unguarded_graphics_send_throws:
  "graphicsWin st \<noteq> Live \<Longrightarrow> \<exists>e. graphics_send command st = Inl (e, st)"
  by (cases "graphicsWin st") (simp_all add: graphics_send_def)

text \<open>
  C9. Each of the three sends happens only behind its test. The callback of a hotkey
  delivers \<open>'global-hotkey-triggered'\<close> only to a control window that exists and is not
  destroyed, and otherwise does nothing. The only error that can leave the \<open>try\<close> block of
  \<open>registerGlobalHotkey\<close> is the one thrown by \<open>globalShortcut.register\<close>, never one of a
  send, and the control window receives something from a registration only if it is
  live. The relay delivers only to a live graphics window. No trigger of a hotkey and no
  sequence of requests throws.
\<close>

theorem sends_are_guarded:
  "hotkey_callback action st =
     Inr (if controlWin st = Live
          then st\<lparr>control_inbox := control_inbox st @ [GlobalHotkeyTriggered action]\<rparr>
          else st)
   \<and> (\<forall>e st'. register_try os A action st = Inl (e, st') \<longrightarrow>
         e = ShortcutError \<and> os (attempts st) = Throws)
   \<and> (\<forall>st'. register_try os A action st = Inr st' \<and> control_inbox st' \<noteq> control_inbox st
         \<longrightarrow> controlWin st = Live)
   \<and> (\<exists>st'. registerGlobalHotkey os A action st = Inr st'
         \<and> (control_inbox st' \<noteq> control_inbox st \<longrightarrow> controlWin st = Live))
   \<and> (\<exists>st'. on_graphic_command command st = Inr st'
         \<and> (graphics_inbox st' \<noteq> graphics_inbox st \<longrightarrow> graphicsWin st = Live))
   \<and> (\<exists>st'. os_trigger A st = Inr st')
   \<and> (\<exists>st'. run os requests st = Inr st')"
proof -
  have try_err: "\<forall>e st'. register_try os A action st = Inl (e, st') \<longrightarrow>
         e = ShortcutError \<and> os (attempts st) = Throws"
    by (cases "os (attempts st)"; cases "controlWin st")
       (auto simp: register_try_def globalShortcut_register_def
          globalShortcut_unregister_def control_send_def usable_def Let_def)
  have try_ok: "\<forall>st'. register_try os A action st = Inr st'
         \<and> control_inbox st' \<noteq> control_inbox st \<longrightarrow> controlWin st = Live"
    by (cases "os (attempts st)"; cases "controlWin st")
       (auto simp: register_try_def globalShortcut_register_def
          globalShortcut_unregister_def control_send_def usable_def Let_def)
  have reg: "\<exists>st'. registerGlobalHotkey os A action st = Inr st'
         \<and> (control_inbox st' \<noteq> control_inbox st \<longrightarrow> controlWin st = Live)"
    by (simp add: registerGlobalHotkey_eq usable_iff)
  have relay: "\<exists>st'. on_graphic_command command st = Inr st'
         \<and> (graphics_inbox st' \<noteq> graphics_inbox st \<longrightarrow> graphicsWin st = Live)"
    by (cases "graphicsWin st")
       (simp_all add: on_graphic_command_def graphics_send_def usable_def)
  show ?thesis
    by (intro conjI) (fact hotkey_callback_eq, fact try_err, fact try_ok, fact reg,
        fact relay, fact os_trigger_returns, fact run_returns)
qed

theorem sends_are_guarded_witness:
  "hotkey_callback ''play'' (initial Destroyed Live :: unit state) = Inr (initial Destroyed Live)
   \<and> control_send (GlobalHotkeyTriggered ''play'') (initial Destroyed Live :: unit state)
       = Inl (ObjectDestroyed, initial Destroyed Live)
   \<and> register_try (always Throws) ''F5'' ''play'' (initial Destroyed Live :: unit state)
       = Inl (ShortcutError, (initial Destroyed Live)\<lparr>attempts := 1\<rparr>)
   \<and> register_try (always Denied) ''F5'' ''play'' (initial Live Live :: unit state)
       = Inr \<lparr>registeredHotkeys = [(''F5'', ''play'')], shortcuts = [], attempts = 1,
              controlWin = Live, graphicsWin = Live,
              control_inbox = [HotkeyMode ''in-window'' ''F5'' ''play''],
              graphics_inbox = [], quit_requested = False\<rparr>
   \<and> on_graphic_command () (initial Live Absent) = Inr (initial Live Absent)"
  using sends_are_guarded [where action = "''play''" and A = "''F5''" and os = "always Throws"
      and st = "initial Destroyed Live :: unit state" and command = "()" and requests = "[]"]
    sends_are_guarded [where action = "''play''" and A = "''F5''" and os = "always Denied"
      and st = "initial Live Live :: unit state" and command = "()" and requests = "[]"]
    sends_are_guarded [where action = "''play''" and A = "''F5''" and os = "always Denied"
      and st = "initial Live Absent :: unit state" and command = "()" and requests = "[]"]
  by (simp add: initial_def always_def control_send_def register_try_def
      globalShortcut_register_def truthy_at_def assign_def plain_names usable_def
      on_graphic_command_def)

section \<open>One binding and one registration for an accelerator\<close>

lemma at_most_one_entry:
  "distinct (map fst xs) \<Longrightarrow> length (filter (\<lambda>p. fst p = k) xs) \<le> 1"
proof (induction xs)
  case Nil
  then show ?case by simp
next
  case (Cons x xs)
  show ?case
  proof (cases "fst x = k")
    case True
    with Cons.prems have "k \<notin> fst ` set xs" by simp
    then have "\<forall>p\<in>set xs. fst p \<noteq> k" by blast
    then have "filter (\<lambda>p. fst p = k) xs = []"
      by (simp add: filter_empty_conv)
    with True show ?thesis by simp
  next
    case False
    with Cons show ?thesis by simp
  qed
qed

lemma entries_after_update:
  "distinct (map fst al) \<Longrightarrow> filter (\<lambda>p. fst p = k) (AList.update k v al) = [(k, v)]"
proof (induction al)
  case Nil
  then show ?case by simp
next
  case (Cons x xs)
  show ?case
  proof (cases "fst x = k")
    case True
    with Cons.prems have "k \<notin> fst ` set xs" by simp
    then have "\<forall>p\<in>set xs. fst p \<noteq> k" by blast
    then have "filter (\<lambda>p. fst p = k) xs = []"
      by (simp add: filter_empty_conv)
    with True show ?thesis by simp
  next
    case False
    with Cons show ?thesis by simp
  qed
qed

lemma entries_after_insert:
  "k \<notin> fst ` set al \<Longrightarrow> filter (\<lambda>p. fst p = k) (AList.update k v al) = [(k, v)]"
  by (induction al) auto

lemma entries_after_release:
  "filter (\<lambda>p. fst p = k) (AList.update k v (AList.delete k xs)) = [(k, v)]"
  by (rule entries_after_insert) (rule AList.delete_notin_dom)

lemma no_entries_after_delete: "filter (\<lambda>p. fst p = k) (AList.delete k xs) = []"
  by (simp add: filter_delete)

lemma no_entries_unbound: "map_of al k = None \<Longrightarrow> filter (\<lambda>p. fst p = k) al = []"
proof -
  assume "map_of al k = None"
  then have "k \<notin> fst ` set al"
    by (simp add: map_of_eq_None_iff)
  then have "\<forall>p\<in>set al. fst p \<noteq> k" by blast
  then show ?thesis
    by (simp add: filter_empty_conv)
qed

lemma truthy_after_assign: "v \<noteq> [] \<Longrightarrow> truthy_at (assign k v obj) k"
  by (cases "k = dunder_proto \<and> map_of obj k = None")
     (auto simp: truthy_at_def assign_def AList.update_conv' inherited_dunder_proto)

lemma register_keeps_well_formed:
  assumes "well_formed st"
  shows "\<exists>st'. registerGlobalHotkey os A act st = Inr st' \<and> well_formed st'"
proof -
  define held where "held = (if truthy_at (registeredHotkeys st) A
                             then AList.delete A (shortcuts st) else shortcuts st)"
  have "distinct (map fst held)"
    using assms by (simp add: held_def well_formed_def AList.distinct_delete)
  then have "distinct (map fst ((if os (attempts st) = Granted then AList.update A act
                                 else (\<lambda>held. held)) held))"
    by (simp add: AList.distinct_update)
  with assms show ?thesis
    by (simp add: registerGlobalHotkey_eq well_formed_def held_def assign_distinct
        assign_no_dunder_proto)
qed

lemma unregister_keeps_well_formed:
  assumes "well_formed st"
  shows "\<exists>st'. unregisterGlobalHotkey A st = Inr st' \<and> well_formed st'"
  using assms
  by (simp add: unregisterGlobalHotkey_def globalShortcut_unregister_def well_formed_def
      AList.distinct_delete AList.delete_conv')

lemma register_all_entry_keeps_well_formed:
  assumes "well_formed st"
  shows "\<exists>st'. register_all_entry os entry st = Inr st' \<and> well_formed st'"
  using assms
  by (simp add: register_all_entry_def register_keeps_well_formed split: option.split)

lemma handle_keeps_well_formed:
  assumes "well_formed st"
  shows "\<exists>st'. handle os r st = Inr st' \<and> well_formed st'"
proof (cases r)
  case (Register A act)
  with assms show ?thesis
    by (simp add: register_keeps_well_formed)
next
  case (Unregister A)
  with assms show ?thesis
    by (simp add: unregister_keeps_well_formed)
next
  case (OnRegisterHotkey a act)
  with assms show ?thesis
    by (simp add: on_register_hotkey_def register_keeps_well_formed split: option.split)
next
  case (OnUnregisterHotkey a)
  with assms show ?thesis
    by (simp add: on_unregister_hotkey_def unregister_keeps_well_formed split: option.split)
next
  case (RegisterAll hotkeys)
  have loop: "\<exists>s'. forEach (register_all_entry os) hotkeys s = Inr s' \<and> well_formed s'"
    if "well_formed s" for s :: "'a state"
    using that
    by (intro forEach_invariant [where I = well_formed])
       (simp_all add: register_all_entry_keeps_well_formed)
  have "well_formed
          (st\<lparr>shortcuts :=
                filter (\<lambda>p. fst p \<notin> fst ` set (registeredHotkeys st)) (shortcuts st),
              registeredHotkeys := []\<rparr>)"
    using assms by (simp add: well_formed_def distinct_map_filter)
  with RegisterAll loop show ?thesis
    by (simp add: on_register_all_hotkeys_eq)
next
  case Reregister
  have loop: "\<exists>s'. forEach (\<lambda>entry. registerGlobalHotkey os (fst entry) (snd entry)) xs s
                = Inr s' \<and> well_formed s'"
    if "well_formed s" for s :: "'a state" and xs
    using that
    by (intro forEach_invariant [where I = well_formed])
       (simp_all add: register_keeps_well_formed)
  have "well_formed (st\<lparr>registeredHotkeys := []\<rparr>)"
    using assms by (simp add: well_formed_def)
  with Reregister loop show ?thesis
    by (simp add: reregister_pass_def Let_def)
next
  case (Trigger A)
  with assms os_trigger_frame [of A st] show ?thesis
    by (auto simp: well_formed_def)
next
  case (SetWindows cw gw)
  with assms show ?thesis
    by (simp add: well_formed_def)
qed

lemma run_keeps_well_formed:
  assumes "well_formed st"
  shows "\<exists>st'. run os requests st = Inr st' \<and> well_formed st'"
  unfolding run_def using assms
  by (intro forEach_invariant [where I = well_formed])
     (simp_all add: handle_keeps_well_formed)

lemma initial_well_formed: "well_formed (initial cw gw)"
  by (simp add: initial_def well_formed_def)

lemma register_twice:
  assumes "well_formed st" "a \<noteq> []"
  shows "\<exists>st1 st2. registerGlobalHotkey os A a st = Inr st1
           \<and> registerGlobalHotkey os A b st1 = Inr st2
           \<and> bindings_for A st2 = (if A = dunder_proto then [] else [(A, b)])
           \<and> registrations_for A st2 =
               (if os (Suc (attempts st)) = Granted then [(A, b)] else [])"
proof -
  have d: "distinct (map fst (registeredHotkeys st))"
    and n: "map_of (registeredHotkeys st) dunder_proto = None"
    using assms(1) by (simp_all add: well_formed_def)
  have bind: "filter (\<lambda>p. fst p = A) (assign A b (assign A a (registeredHotkeys st)))
              = (if A = dunder_proto then [] else [(A, b)])"
  proof (cases "A = dunder_proto")
    case True
    with n show ?thesis
      by (simp add: assign_def no_entries_unbound)
  next
    case False
    with d show ?thesis
      by (simp add: assign_def entries_after_update)
  qed
  have t: "truthy_at (assign A a (registeredHotkeys st)) A"
    using assms(2) by (rule truthy_after_assign)
  show ?thesis
    using bind t
    by (simp add: registerGlobalHotkey_eq bindings_for_def registrations_for_def
        entries_after_release no_entries_after_delete)
qed

text \<open>
  C3 as stated fails, in two ways. When the operating system denies both registrations,
  the table holds the binding of \<open>F5\<close> to \<open>bar\<close> and the module holds no registration
  for \<open>F5\<close>. And for the accelerator \<open>__proto__\<close> the table holds no binding after the two
  calls, since the assignment stores nothing.
\<close>

theorem denied_twice_leaves_no_registration:
  "run (always Denied) [Register ''F5'' ''foo'', Register ''F5'' ''bar'']
     (initial Live Live :: unit state)
   = Inr \<lparr>registeredHotkeys = [(''F5'', ''bar'')], shortcuts = [], attempts = 2,
          controlWin = Live, graphicsWin = Live,
          control_inbox = [HotkeyMode ''in-window'' ''F5'' ''foo'',
                           HotkeyMode ''in-window'' ''F5'' ''bar''],
          graphics_inbox = [], quit_requested = False\<rparr>
   \<and> registrations_for ''F5''
       \<lparr>registeredHotkeys = [(''F5'', ''bar'')], shortcuts = [], attempts = 2,
        controlWin = Live, graphicsWin = Live,
        control_inbox = [HotkeyMode ''in-window'' ''F5'' ''foo'',
                         HotkeyMode ''in-window'' ''F5'' ''bar''],
        graphics_inbox = ([] :: unit list), quit_requested = False\<rparr> = []
   \<and> run (always Denied) [Register ''__proto__'' ''foo'', Register ''__proto__'' ''bar'']
     (initial Live Live :: unit state)
   = Inr \<lparr>registeredHotkeys = [], shortcuts = [], attempts = 2,
          controlWin = Live, graphicsWin = Live,
          control_inbox = [HotkeyMode ''in-window'' ''__proto__'' ''foo'',
                           HotkeyMode ''in-window'' ''__proto__'' ''bar''],
          graphics_inbox = [], quit_requested = False\<rparr>
   \<and> bindings_for ''__proto__''
       \<lparr>registeredHotkeys = [], shortcuts = [], attempts = 2,
        controlWin = Live, graphicsWin = Live,
        control_inbox = [HotkeyMode ''in-window'' ''__proto__'' ''foo'',
                         HotkeyMode ''in-window'' ''__proto__'' ''bar''],
        graphics_inbox = ([] :: unit list), quit_requested = False\<rparr> = []"
  by (simp add: run_def registerGlobalHotkey_eq initial_def always_def truthy_at_def
      assign_def plain_names dunder_proto_def usable_def registrations_for_def
      bindings_for_def)

text \<open>
  C3, amended. No sequence of register, unregister, registerAll, the pass after start-up,
  reported hotkeys and changes of the windows throws, and in every state it reaches an
  accelerator has at most one binding in the table and the module holds at most one
  registration for it. From every such state, after \<open>register(A, "foo")\<close> and
  \<open>register(A, "bar")\<close> the table has exactly one binding for \<open>A\<close>, to \<open>"bar"\<close>, when \<open>A\<close> is
  not \<open>__proto__\<close>, and none when it is; and the module holds exactly one registration
  for \<open>A\<close>, with the action \<open>"bar"\<close>, when the second registration is granted, and none
  when it is denied or throws.
\<close>

theorem one_binding_per_accelerator:
  "\<exists>st. run os requests (initial cw gw :: 'c state) = Inr st
      \<and> length (bindings_for A st) \<le> 1
      \<and> length (registrations_for A st) \<le> 1
      \<and> (\<exists>st1 st2. registerGlobalHotkey os A ''foo'' st = Inr st1
            \<and> registerGlobalHotkey os A ''bar'' st1 = Inr st2
            \<and> bindings_for A st2 = (if A = dunder_proto then [] else [(A, ''bar'')])
            \<and> registrations_for A st2 =
                (if os (Suc (attempts st)) = Granted then [(A, ''bar'')] else []))"
proof -
  obtain st where st: "run os requests (initial cw gw :: 'c state) = Inr st"
    and wf: "well_formed st"
    using run_keeps_well_formed [of "initial cw gw :: 'c state" os requests]
      initial_well_formed [of cw gw, where ?'a = 'c]
    by blast
  have one: "length (bindings_for A st) \<le> 1"
    unfolding bindings_for_def using wf by (intro at_most_one_entry) (simp add: well_formed_def)
  have reg: "length (registrations_for A st) \<le> 1"
    unfolding registrations_for_def using wf
    by (intro at_most_one_entry) (simp add: well_formed_def)
  have ne: "''foo'' \<noteq> []" by simp
  have twice: "\<exists>st1 st2. registerGlobalHotkey os A ''foo'' st = Inr st1
            \<and> registerGlobalHotkey os A ''bar'' st1 = Inr st2
            \<and> bindings_for A st2 = (if A = dunder_proto then [] else [(A, ''bar'')])
            \<and> registrations_for A st2 =
                (if os (Suc (attempts st)) = Granted then [(A, ''bar'')] else [])"
    using wf ne by (rule register_twice)
  show ?thesis
    by (rule exI [of _ st]) (intro conjI, fact st, fact one, fact reg, fact twice)
qed

theorem one_binding_per_accelerator_witness:
  "\<exists>st. run (always Granted)
          [Register ''F5'' ''play'', OnRegisterHotkey (Some ''Ctrl + S'') ''stop'',
           Reregister, Trigger ''F5'']
          (initial Live Live :: unit state) = Inr st
      \<and> bindings_for ''F5'' st = [(''F5'', ''play'')]
      \<and> registrations_for ''F5'' st = [(''F5'', ''play'')]
      \<and> length (bindings_for ''F5'' st) \<le> 1
      \<and> length (registrations_for ''F5'' st) \<le> 1
      \<and> (\<exists>st1 st2. registerGlobalHotkey (always Granted) ''F5'' ''foo'' st = Inr st1
            \<and> registerGlobalHotkey (always Granted) ''F5'' ''bar'' st1 = Inr st2
            \<and> bindings_for ''F5'' st2 = [(''F5'', ''bar'')]
            \<and> registrations_for ''F5'' st2 = [(''F5'', ''bar'')])"
proof -
  let ?S = "\<lparr>registeredHotkeys = [(''F5'', ''play''), (''CommandOrControl+S'', ''stop'')],
            shortcuts = [(''F5'', ''play''), (''CommandOrControl+S'', ''stop'')],
            attempts = 4, controlWin = Live, graphicsWin = Live,
            control_inbox = [GlobalHotkeyTriggered ''play''],
            graphics_inbox = ([] :: unit list), quit_requested = False\<rparr>"
  have tr: "convertToElectronAccelerator (Some ''Ctrl + S'') = Some ''CommandOrControl+S''"
    by (simp add: convertToElectronAccelerator_def strip_whitespace_def is_space_def)
  have ev: "run (always Granted)
              [Register ''F5'' ''play'', OnRegisterHotkey (Some ''Ctrl + S'') ''stop'',
               Reregister, Trigger ''F5'']
              (initial Live Live :: unit state) = Inr ?S"
    by (simp add: run_def registerGlobalHotkey_eq on_register_hotkey_def tr
        reregister_pass_def object_entries_def array_index_def is_digit_def os_trigger_def
        hotkey_callback_eq initial_def always_def truthy_at_def assign_def plain_names
        usable_def Let_def)
  have bS: "bindings_for ''F5'' ?S = [(''F5'', ''play'')]"
    by (simp add: bindings_for_def)
  have rS: "registrations_for ''F5'' ?S = [(''F5'', ''play'')]"
    by (simp add: registrations_for_def)
  have g: "always Granted n = Granted" for n
    by (simp add: always_def)
  show ?thesis
    using one_binding_per_accelerator [where os = "always Granted" and A = "''F5''"
        and cw = Live and gw = Live and requests =
          "[Register ''F5'' ''play'', OnRegisterHotkey (Some ''Ctrl + S'') ''stop'',
            Reregister, Trigger ''F5'']", where ?'c = unit]
    by (simp only: ev g bS rS plain_names if_True if_False sum.inject simp_thms ex_simps
        One_nat_def)
qed

end
